theory Spec2Isabelle
  imports Main "HOL-Library.Char_ord" "HOL-Library.List_Lexorder" "HOL-Library.Monad_Syntax"
begin

section \<open>StateSafe: the transition engine, its hook tables and the log queue\<close>

text \<open>
  The development follows \<^verbatim>\<open>src/StateSafe.ts\<close>: the class \<^verbatim>\<open>TransitionWrapper\<close>, the
  class \<^verbatim>\<open>FSM\<close> and the queueing part of the class \<^verbatim>\<open>StateSafe\<close>. Method names are
  kept; a private field \<^verbatim>\<open>_x\<close> of the source is the record field \<open>p_x\<close>.
\<close>

subsection \<open>Strings and the naming convention\<close>

text \<open>
  Names are byte strings. \<^verbatim>\<open>toLowerCase\<close> and \<^verbatim>\<open>toUpperCase\<close> are modelled on the ASCII
  letters, which is what identifiers of the host language are made of; every other
  character is left as it is.
\<close>

definition lowerLetters :: string where
  "lowerLetters = ''abcdefghijklmnopqrstuvwxyz''"

definition upperLetters :: string where
  "upperLetters = ''ABCDEFGHIJKLMNOPQRSTUVWXYZ''"

definition toUpperCase :: "char \<Rightarrow> char" where
  "toUpperCase c = (case map_of (zip lowerLetters upperLetters) c of Some d \<Rightarrow> d | None \<Rightarrow> c)"

definition toLowerCase :: "char \<Rightarrow> char" where
  "toLowerCase c = (case map_of (zip upperLetters lowerLetters) c of Some d \<Rightarrow> d | None \<Rightarrow> c)"

text \<open>\<^verbatim>\<open>s.split(sep)\<close> for a one-character separator: the result is never empty.\<close>

fun split :: "char \<Rightarrow> string \<Rightarrow> string list" where
  "split sep [] = [[]]"
| "split sep (c # cs) =
     (if c = sep then [] # split sep cs
      else (case split sep cs of [] \<Rightarrow> [[c]] | p # ps \<Rightarrow> (c # p) # ps))"

text \<open>\<^verbatim>\<open>part.charAt(0).toUpperCase() + part.slice(1)\<close>\<close>

definition capitalize :: "string \<Rightarrow> string" where
  "capitalize part = (case part of [] \<Rightarrow> [] | c # cs \<Rightarrow> toUpperCase c # cs)"

definition nameConvert :: "string \<Rightarrow> string" where
  "nameConvert inputString =
     (case split CHR ''_'' inputString of
        [] \<Rightarrow> []
      | firstPart # remainingParts \<Rightarrow>
          map toLowerCase firstPart @ concat (map capitalize remainingParts))"

subsection \<open>TransitionWrapper\<close>

record transitionData =
  data_from :: string
  data_to :: string
  data_event :: string

definition reservedWords :: "string list" where
  "reservedWords =
     [''break'', ''case'', ''catch'', ''class'', ''const'', ''continue'',
      ''debugger'', ''default'', ''delete'', ''do'', ''else'', ''enum'',
      ''export'', ''extends'', ''false'', ''final'', ''finally'', ''for'',
      ''function'', ''if'', ''implements'', ''import'', ''in'', ''instanceof'',
      ''interface'', ''let'', ''module'', ''new'', ''null'', ''package'',
      ''private'', ''protected'', ''public'', ''return'', ''static'', ''super'',
      ''switch'', ''this'', ''throw'', ''try'', ''true'', ''type'', ''typeof'',
      ''var'', ''void'', ''while'', ''with'', ''yield'', ''as'', ''any'', ''boolean'',
      ''byte'', ''char'', ''double'', ''int'', ''long'', ''object'', ''short'',
      ''string'', ''undefined'', ''declare'', ''namespace'', ''require'',
      ''from'', ''extends'', ''implements'', ''interface'', ''keyof'', ''module'',
      ''typeof'', ''get'', ''set'']"

definition validateEvent :: "string \<Rightarrow> bool" where
  "validateEvent event = (if event \<in> set reservedWords then False else True)"

definition TransitionWrapper :: "string \<Rightarrow> string \<Rightarrow> string \<Rightarrow> transitionData" where
  "TransitionWrapper from_state to_state event =
     (if validateEvent event
      then \<lparr>data_from = from_state, data_to = to_state, data_event = event\<rparr>
      else \<lparr>data_from = [], data_to = [], data_event = []\<rparr>)"

subsection \<open>The FSM object\<close>

text \<open>
  The plain data of an \<^verbatim>\<open>FSM\<close> instance. A JavaScript \<^verbatim>\<open>Set\<close> keeps insertion order
  and no duplicates: it is a list extended by \<open>setAdd\<close>. \<^verbatim>\<open>null\<close> is \<open>None\<close>.
\<close>

record engine =
  p_state :: "string option"
  p_transitionName :: "string option"
  p_fromState :: "string option"
  p_toState :: "string option"
  p_nextState :: "string option"
  transitions :: "transitionData list"
  uniqueStates :: "string list"
  uniqueEvents :: "string list"

definition setAdd :: "'a \<Rightarrow> 'a list \<Rightarrow> 'a list" where
  "setAdd x xs = (if x \<in> set xs then xs else xs @ [x])"

text \<open>
  What the instance can call. A hook written by the application is a \<open>Method\<close>: it reads
  the engine through its accessors, works on the application's own data (of type \<open>'u\<close>:
  a counter, a temperature) and returns a value of which the engine only uses the
  truthiness. The other callable to be found on an instance is the shortcut that
  \<^verbatim>\<open>transition\<close> installs for an event: \<^verbatim>\<open>() => this.fire(event)\<close>, which returns
  \<^verbatim>\<open>undefined\<close>. Methods return normally and do not call back into the engine (the
  engine is not written to be re-entered from a hook); shortcuts do call back, and the
  model follows them.
\<close>

datatype 'u callable =
  Method "engine \<Rightarrow> 'u \<Rightarrow> bool \<times> 'u"
| Shortcut string

text \<open>
  An observation log of the hook invocations (it is not a field of the source): the
  phase, the event being fired, the slot the callable was taken from (the method of
  the derived name, or the position in the event's hook list) and whether the callable
  returned a truthy value.
\<close>

datatype phase = Before | On | After

datatype slot = Derived | Explicit nat

datatype call = Call phase string slot bool

text \<open>
  \<open>members\<close> is the property table that \<^verbatim>\<open>this[name]\<close> reads and \<^verbatim>\<open>this[name] = ...\<close>
  writes, for the names that are not fields or methods of \<^verbatim>\<open>FSM\<close> itself: the methods
  of the application's subclass and the installed shortcuts. \<open>showState\<close> stands for
  the test on \<^verbatim>\<open>process.env\<close> in \<^verbatim>\<open>stateChanged\<close>, and \<open>notices\<close> collects the
  message and tag that \<^verbatim>\<open>stateChanged\<close> hands to the logger's own \<^verbatim>\<open>infoMsg\<close>.
\<close>

record 'u fsm = engine +
  onHooks :: "string \<rightharpoonup> 'u callable list"
  afterHooks :: "string \<rightharpoonup> 'u callable list"
  beforeHooks :: "string \<rightharpoonup> 'u callable list"
  members :: "string \<rightharpoonup> 'u callable"
  user :: 'u
  showState :: bool
  notices :: "(string \<times> string) list"
  calls :: "call list"

definition new_FSM :: "(string \<rightharpoonup> (engine \<Rightarrow> 'u \<Rightarrow> bool \<times> 'u)) \<Rightarrow> 'u \<Rightarrow> bool \<Rightarrow> 'u fsm" where
  "new_FSM methods u env =
     \<lparr>p_state = None, p_transitionName = Some [], p_fromState = Some [],
      p_toState = Some [], p_nextState = Some [],
      transitions = [], uniqueStates = [], uniqueEvents = [],
      onHooks = Map.empty, afterHooks = Map.empty, beforeHooks = Map.empty,
      members = map_option Method \<circ> methods,
      user = u, showState = env, notices = [], calls = []\<rparr>"

subsection \<open>Registry: \<^verbatim>\<open>transition\<close>, \<^verbatim>\<open>state\<close>, \<^verbatim>\<open>states\<close>, \<^verbatim>\<open>events\<close>\<close>

definition transition :: "'u fsm \<Rightarrow> string \<Rightarrow> string \<Rightarrow> string \<Rightarrow> 'u fsm" where
  "transition fsm event from_state to_state =
     (if validateEvent event then
        if \<not> list_ex (\<lambda>t. data_from t = from_state \<and> data_to t = to_state) (transitions fsm) then
          if \<not> list_ex (\<lambda>t. data_event t = event) (transitions fsm) then
            let tr = TransitionWrapper from_state to_state event;
                methodName = nameConvert event
            in fsm\<lparr>transitions := transitions fsm @ [tr],
                   uniqueStates := setAdd to_state (setAdd from_state (uniqueStates fsm)),
                   uniqueEvents := setAdd event (uniqueEvents fsm),
                   members := (members fsm)(methodName \<mapsto> Shortcut event)\<rparr>
          else fsm
        else fsm
      else fsm)"

text \<open>
  \<^verbatim>\<open>state(newState?)\<close>: the argument is optional, \<open>None\<close> when it is left out. The
  result is the returned value and the object after the call.
\<close>

definition state :: "'u fsm \<Rightarrow> string option \<Rightarrow> string option \<times> 'u fsm" where
  "state fsm newState =
     (case newState of
        None \<Rightarrow> (p_state fsm, fsm)
      | Some s \<Rightarrow>
          if s \<noteq> [] then
            (None, if p_state fsm = None \<and> s \<in> set (uniqueStates fsm)
                   then fsm\<lparr>p_state := Some s\<rparr> else fsm)
          else (p_state fsm, fsm))"



definition transitionName :: "'u fsm \<Rightarrow> string option" where
  "transitionName fsm = p_transitionName fsm"

definition fromState :: "'u fsm \<Rightarrow> string option" where
  "fromState fsm = p_fromState fsm"

definition toState :: "'u fsm \<Rightarrow> string option" where
  "toState fsm = p_toState fsm"

definition nextState :: "'u fsm \<Rightarrow> string option" where
  "nextState fsm = p_nextState fsm"

subsection \<open>Hook registration: \<^verbatim>\<open>before\<close>, \<^verbatim>\<open>on\<close>, \<^verbatim>\<open>after\<close>\<close>

text \<open>The argument \<^verbatim>\<open>callbackOrMethod: Function | string\<close>.\<close>

datatype 'u callbackOrMethod =
  Callback "engine \<Rightarrow> 'u \<Rightarrow> bool \<times> 'u"
| MethodName string

definition isName :: "'u callbackOrMethod \<Rightarrow> string \<Rightarrow> bool" where
  "isName callbackOrMethod name =
     (case callbackOrMethod of MethodName n \<Rightarrow> n = name | Callback f \<Rightarrow> False)"

definition hooksOf :: "(string \<rightharpoonup> 'u callable list) \<Rightarrow> string \<Rightarrow> 'u callable list" where
  "hooksOf table eventName = (case table eventName of Some hooks \<Rightarrow> hooks | None \<Rightarrow> [])"

definition after :: "'u fsm \<Rightarrow> string \<Rightarrow> 'u callbackOrMethod \<Rightarrow> 'u fsm" where
  "after fsm eventName callbackOrMethod =
     (let fsm = (if afterHooks fsm eventName = None
                 then fsm\<lparr>afterHooks := (afterHooks fsm)(eventName \<mapsto> [])\<rparr> else fsm)
      in case callbackOrMethod of
           Callback f \<Rightarrow>
             fsm\<lparr>afterHooks := (afterHooks fsm)(eventName \<mapsto> hooksOf (afterHooks fsm) eventName @ [Method f])\<rparr>
         | MethodName name \<Rightarrow>
             (case members fsm name of
                Some method \<Rightarrow>
                  fsm\<lparr>afterHooks := (afterHooks fsm)(eventName \<mapsto> hooksOf (afterHooks fsm) eventName @ [method])\<rparr>
              | None \<Rightarrow> fsm))"

definition on :: "'u fsm \<Rightarrow> string \<Rightarrow> 'u callbackOrMethod \<Rightarrow> 'u fsm" where
  "on fsm eventName callbackOrMethod =
     (let onMethod = nameConvert (''on_'' @ eventName) in
      if isName callbackOrMethod onMethod then fsm
      else
        let fsm = (if onHooks fsm eventName = None
                   then fsm\<lparr>onHooks := (onHooks fsm)(eventName \<mapsto> [])\<rparr> else fsm)
        in case callbackOrMethod of
             Callback f \<Rightarrow>
               fsm\<lparr>onHooks := (onHooks fsm)(eventName \<mapsto> hooksOf (onHooks fsm) eventName @ [Method f])\<rparr>
           | MethodName name \<Rightarrow>
               (case members fsm name of
                  Some method \<Rightarrow>
                    fsm\<lparr>onHooks := (onHooks fsm)(eventName \<mapsto> hooksOf (onHooks fsm) eventName @ [method])\<rparr>
                | None \<Rightarrow> fsm))"

definition before :: "'u fsm \<Rightarrow> string \<Rightarrow> 'u callbackOrMethod \<Rightarrow> 'u fsm" where
  "before fsm eventName callbackOrMethod =
     (let beforeMethod = nameConvert (''before_'' @ eventName) in
      if isName callbackOrMethod beforeMethod then fsm
      else
        let fsm = (if beforeHooks fsm eventName = None
                   then fsm\<lparr>beforeHooks := (beforeHooks fsm)(eventName \<mapsto> [])\<rparr> else fsm)
        in case callbackOrMethod of
             Callback f \<Rightarrow>
               fsm\<lparr>beforeHooks := (beforeHooks fsm)(eventName \<mapsto> hooksOf (beforeHooks fsm) eventName @ [Method f])\<rparr>
           | MethodName name \<Rightarrow>
               (case members fsm name of
                  Some method \<Rightarrow>
                    fsm\<lparr>beforeHooks := (beforeHooks fsm)(eventName \<mapsto> hooksOf (beforeHooks fsm) eventName @ [method])\<rparr>
                | None \<Rightarrow> fsm))"

subsection \<open>Array iteration and hook invocation\<close>

text \<open>
  \<^verbatim>\<open>Array.prototype.every\<close> calls the callback on the elements in order and stops at
  the first falsy result; \<^verbatim>\<open>forEach\<close> calls it on every element. A callback may not
  return (a shortcut re-enters \<^verbatim>\<open>fire\<close>), so results are options.
\<close>

fun every :: "('a \<Rightarrow> 's \<Rightarrow> (bool \<times> 's) option) \<Rightarrow> 'a list \<Rightarrow> 's \<Rightarrow> (bool \<times> 's) option" where
  "every callback [] s = Some (True, s)"
| "every callback (x # xs) s =
     Option.bind (callback x s) (\<lambda>(r, s'). if r then every callback xs s' else Some (False, s'))"

fun forEach :: "('a \<Rightarrow> 's \<Rightarrow> 's option) \<Rightarrow> 'a list \<Rightarrow> 's \<Rightarrow> 's option" where
  "forEach callback [] s = Some s"
| "forEach callback (x # xs) s = Option.bind (callback x s) (forEach callback xs)"

lemma every_mono [partial_function_mono]:
  assumes "\<And>x s. mono_option (\<lambda>f. P f x s)"
  shows "mono_option (\<lambda>f. every (P f) xs s)"
proof (induction xs arbitrary: s)
  case Nil
  show ?case by (simp add: partial_function_mono)
next
  case (Cons x xs)
  show ?case
    unfolding every.simps
    by (intro partial_function_mono assms) (auto intro!: partial_function_mono Cons split: prod.splits)
qed

lemma forEach_mono [partial_function_mono]:
  assumes "\<And>x s. mono_option (\<lambda>f. P f x s)"
  shows "mono_option (\<lambda>f. forEach (P f) xs s)"
proof (induction xs arbitrary: s)
  case Nil
  show ?case by (simp add: partial_function_mono)
next
  case (Cons x xs)
  show ?case
    unfolding forEach.simps
    by (intro partial_function_mono assms Cons)
qed

text \<open>
  Calling a callable taken from a slot. A method runs on the application's data; a
  shortcut fires its event on the same object and returns \<^verbatim>\<open>undefined\<close>, which is
  falsy. \<open>fire_again\<close> is \<^verbatim>\<open>this.fire\<close>.
\<close>

definition logCall :: "phase \<Rightarrow> string \<Rightarrow> slot \<Rightarrow> bool \<Rightarrow> 'u fsm \<Rightarrow> 'u fsm" where
  "logCall ph eventName sl r fsm = fsm\<lparr>calls := calls fsm @ [Call ph eventName sl r]\<rparr>"

definition callHook ::
  "('u fsm \<Rightarrow> string \<Rightarrow> 'u fsm option) \<Rightarrow> phase \<Rightarrow> string \<Rightarrow> slot \<Rightarrow> 'u callable \<Rightarrow> 'u fsm
     \<Rightarrow> (bool \<times> 'u fsm) option" where
  "callHook fire_again ph eventName sl hook fsm =
     (case hook of
        Method f \<Rightarrow>
          (case f (engine.truncate fsm) (user fsm) of
             (r, u) \<Rightarrow> Some (r, logCall ph eventName sl r (fsm\<lparr>user := u\<rparr>)))
      | Shortcut event \<Rightarrow>
          do {
            fsm \<leftarrow> fire_again (logCall ph eventName sl False fsm) event;
            Some (False, fsm)
          })"

lemma callHook_mono [partial_function_mono]:
  assumes "\<And>s e. mono_option (\<lambda>f. R f s e)"
  shows "mono_option (\<lambda>f. callHook (R f) ph ev sl hook fsm)"
  unfolding callHook_def
  by (cases hook) (auto intro!: partial_function_mono assms split: prod.splits)

text \<open>
  \<^verbatim>\<open>if (typeof hook === 'function') { hook.call(this) }\<close> on a property read from the
  instance; without a callable the result keeps its initial value \<^verbatim>\<open>true\<close>.
\<close>

definition callIfFunction ::
  "('u fsm \<Rightarrow> string \<Rightarrow> 'u fsm option) \<Rightarrow> phase \<Rightarrow> string \<Rightarrow> 'u callable option \<Rightarrow> 'u fsm
     \<Rightarrow> (bool \<times> 'u fsm) option" where
  "callIfFunction fire_again ph eventName property fsm =
     (case property of
        Some hook \<Rightarrow> callHook fire_again ph eventName Derived hook fsm
      | None \<Rightarrow> Some (True, fsm))"

lemma callIfFunction_mono [partial_function_mono]:
  assumes "\<And>s e. mono_option (\<lambda>f. R f s e)"
  shows "mono_option (\<lambda>f. callIfFunction (R f) ph ev property fsm)"
  unfolding callIfFunction_def
  by (cases property) (auto intro!: partial_function_mono assms)

subsection \<open>\<^verbatim>\<open>stateChanged\<close>, \<^verbatim>\<open>invokeOnHooks\<close>, \<^verbatim>\<open>invokeAfterHooks\<close>\<close>

text \<open>
  \<^verbatim>\<open>stateChanged\<close> looks \<^verbatim>\<open>infoMsg\<close> up on the instance: the logger's own method unless
  the property table holds another callable under that name.
\<close>

definition stateChangedMsg :: "'u fsm \<Rightarrow> string \<Rightarrow> string" where
  "stateChangedMsg fsm func =
     (let func = (if func \<noteq> [] then '' in '' @ func else func);
          name = (case transitionName fsm of Some n \<Rightarrow> n | None \<Rightarrow> []);
          fromState = (case fromState fsm of Some n \<Rightarrow> n | None \<Rightarrow> []);
          toState = (case toState fsm of Some n \<Rightarrow> n | None \<Rightarrow> [])
      in ''Transition ('' @ name @ func @ '') : ['' @ fromState @ ''] -> ['' @ toState @ '']'')"

definition stateChanged ::
  "('u fsm \<Rightarrow> string \<Rightarrow> 'u fsm option) \<Rightarrow> 'u fsm \<Rightarrow> string \<Rightarrow> 'u fsm option" where
  "stateChanged fire_again fsm func =
     (if showState fsm then
        (case members fsm ''infoMsg'' of
           None \<Rightarrow> Some (fsm\<lparr>notices := notices fsm @ [(stateChangedMsg fsm func, ''STATE CHANGED'')]\<rparr>)
         | Some (Method f) \<Rightarrow>
             (case f (engine.truncate fsm) (user fsm) of (r, u) \<Rightarrow> Some (fsm\<lparr>user := u\<rparr>))
         | Some (Shortcut event) \<Rightarrow> fire_again fsm event)
      else Some fsm)"

lemma stateChanged_mono [partial_function_mono]:
  assumes "\<And>s e. mono_option (\<lambda>f. R f s e)"
  shows "mono_option (\<lambda>f. stateChanged (R f) fsm func)"
proof (cases "members fsm ''infoMsg''")
  case None
  then show ?thesis by (simp add: stateChanged_def partial_function_mono)
next
  case (Some c)
  then show ?thesis
    by (cases c) (auto simp: stateChanged_def intro!: partial_function_mono assms split: prod.splits)
qed

definition invokeOnHooks ::
  "('u fsm \<Rightarrow> string \<Rightarrow> 'u fsm option) \<Rightarrow> 'u fsm \<Rightarrow> string \<Rightarrow> 'u fsm option" where
  "invokeOnHooks fire_again fsm eventName =
     (let hooks = hooksOf (onHooks fsm) eventName
      in forEach (\<lambda>(i, hook) fsm. do {
                    (r, fsm) \<leftarrow> callHook fire_again On eventName (Explicit i) hook fsm;
                    Some fsm })
           (enumerate 0 hooks) fsm)"

definition invokeAfterHooks ::
  "('u fsm \<Rightarrow> string \<Rightarrow> 'u fsm option) \<Rightarrow> 'u fsm \<Rightarrow> string \<Rightarrow> 'u fsm option" where
  "invokeAfterHooks fire_again fsm eventName =
     (let hooks = hooksOf (afterHooks fsm) eventName
      in forEach (\<lambda>(i, hook) fsm. do {
                    (r, fsm) \<leftarrow> callHook fire_again After eventName (Explicit i) hook fsm;
                    Some fsm })
           (enumerate 0 hooks) fsm)"

lemma invokeOnHooks_mono [partial_function_mono]:
  assumes "\<And>s e. mono_option (\<lambda>f. R f s e)"
  shows "mono_option (\<lambda>f. invokeOnHooks (R f) fsm eventName)"
  unfolding invokeOnHooks_def Let_def
  by (intro partial_function_mono) (auto intro!: partial_function_mono assms split: prod.splits)

lemma invokeAfterHooks_mono [partial_function_mono]:
  assumes "\<And>s e. mono_option (\<lambda>f. R f s e)"
  shows "mono_option (\<lambda>f. invokeAfterHooks (R f) fsm eventName)"
  unfolding invokeAfterHooks_def Let_def
  by (intro partial_function_mono) (auto intro!: partial_function_mono assms split: prod.splits)

subsection \<open>\<^verbatim>\<open>fire\<close>\<close>

text \<open>
  \<^verbatim>\<open>fire\<close> can be re-entered through a shortcut found in a hook slot, and such a chain
  need not end (the host then overflows its stack): \<open>None\<close> is "does not return".
\<close>

partial_function (option) fire :: "'u fsm \<Rightarrow> string \<Rightarrow> 'u fsm option" where
  "fire fsm eventName =
     (if eventName \<in> set (uniqueEvents fsm) then
        let tr = List.find (\<lambda>t. data_event t = eventName \<and> Some (data_from t) = p_state fsm)
                   (transitions fsm);
            beforeMethod = nameConvert (''before_'' @ eventName);
            hooks = hooksOf (beforeHooks fsm) eventName;
            beforeHook2 = members fsm beforeMethod;
            fsm = fsm\<lparr>p_transitionName := Some eventName, p_fromState := p_state fsm\<rparr>;
            fsm = (case tr of Some t \<Rightarrow> fsm\<lparr>p_toState := Some (data_to t)\<rparr> | None \<Rightarrow> fsm);
            fsm = fsm\<lparr>p_nextState := Some []\<rparr>
        in do {
          (canProceed2, fsm) \<leftarrow> callIfFunction fire Before eventName beforeHook2 fsm;
          (canProceed1, fsm) \<leftarrow>
             every (\<lambda>(i, hook). callHook fire Before eventName (Explicit i) hook)
               (enumerate 0 hooks) fsm;
          (case tr of
             Some t \<Rightarrow>
               if canProceed1 \<and> canProceed2 then do {
                 let fsm = fsm\<lparr>p_nextState := Some (data_to t)\<rparr>;
                 let onMethod = nameConvert (''on_'' @ eventName);
                 let onHook = members fsm onMethod;
                 (r, fsm) \<leftarrow> callIfFunction fire On eventName onHook fsm;
                 fsm \<leftarrow> invokeOnHooks fire fsm eventName;
                 let fsm = fsm\<lparr>p_state := Some (data_to t)\<rparr>;
                 let fsm = fsm\<lparr>p_nextState := Some []\<rparr>;
                 fsm \<leftarrow> stateChanged fire fsm [];
                 let afterMethod = nameConvert (''after_'' @ eventName);
                 let afterHook = members fsm afterMethod;
                 (r, fsm) \<leftarrow> callIfFunction fire After eventName afterHook fsm;
                 fsm \<leftarrow> invokeAfterHooks fire fsm eventName;
                 Some (fsm\<lparr>p_transitionName := Some [], p_fromState := Some [],
                            p_toState := Some [], p_nextState := Some []\<rparr>)
               } else Some fsm
           | None \<Rightarrow> Some fsm)
        }
      else Some fsm)"

declare fire.simps [code]

subsection \<open>Sequences of calls on one instance\<close>

datatype 'u operation =
  DefineTransition string string string
| SetInitial "string option"
| RegisterBefore string "'u callbackOrMethod"
| RegisterOn string "'u callbackOrMethod"
| RegisterAfter string "'u callbackOrMethod"
| Fire string

fun perform :: "'u operation \<Rightarrow> 'u fsm \<Rightarrow> 'u fsm option" where
  "perform (DefineTransition event from_state to_state) fsm = Some (transition fsm event from_state to_state)"
| "perform (SetInitial newState) fsm = Some (snd (state fsm newState))"
| "perform (RegisterBefore eventName callbackOrMethod) fsm = Some (before fsm eventName callbackOrMethod)"
| "perform (RegisterOn eventName callbackOrMethod) fsm = Some (on fsm eventName callbackOrMethod)"
| "perform (RegisterAfter eventName callbackOrMethod) fsm = Some (after fsm eventName callbackOrMethod)"
| "perform (Fire eventName) fsm = fire fsm eventName"

fun run :: "'u operation list \<Rightarrow> 'u fsm \<Rightarrow> 'u fsm option" where
  "run [] fsm = Some fsm"
| "run (operation # operations) fsm = Option.bind (perform operation fsm) (run operations)"

subsection \<open>The machine of the test suite\<close>


definition countAnd :: "bool \<Rightarrow> engine \<Rightarrow> nat \<Rightarrow> bool \<times> nat" where
  "countAnd result eng count = (result, Suc count)"

text \<open>
  The same machine seeded in \<open>GAS\<close>, on an instance whose class defines the given
  methods, and the variants the properties below are tried on.
\<close>

definition seeded :: "(string \<rightharpoonup> (engine \<Rightarrow> nat \<Rightarrow> bool \<times> nat)) \<Rightarrow> nat fsm" where
  "seeded methods =
     snd (state
       (transition (transition (new_FSM methods 0 False) ''freeze'' ''LIQUID'' ''SOLID'')
          ''condense'' ''GAS'' ''LIQUID'')
       (Some ''GAS''))"



definition guarded :: "nat fsm" where
  "guarded =
     after (on (before
       (seeded [''onCondense'' \<mapsto> countAnd True, ''afterCondense'' \<mapsto> countAnd True])
       ''condense'' (Callback (countAnd False)))
       ''condense'' (Callback (countAnd True)))
       ''condense'' (Callback (countAnd True))"


definition myEvent :: "nat fsm" where
  "myEvent =
     after
       (snd (state (transition (new_FSM [''afterMyEvent'' \<mapsto> countAnd True] 0 False) ''my_event'' ''A'' ''B'')
          (Some ''A'')))
       ''my_event'' (MethodName ''afterMyEvent'')"

definition stateAndCalls :: "'u fsm \<Rightarrow> string option \<times> call list" where
  "stateAndCalls fsm = (p_state fsm, calls fsm)"

text \<open>
  A sequence of calls in which the shortcut \<^verbatim>\<open>freeze\<close> is registered by name as an
  after-hook of \<^verbatim>\<open>condense\<close>: firing \<^verbatim>\<open>condense\<close> re-enters \<^verbatim>\<open>fire\<close>.
\<close>

definition chained :: "nat operation list" where
  "chained =
     [DefineTransition ''freeze'' ''LIQUID'' ''SOLID'',
      DefineTransition ''condense'' ''GAS'' ''LIQUID'',
      RegisterOn ''condense'' (Callback (countAnd True)),
      RegisterAfter ''condense'' (MethodName ''freeze''),
      SetInitial (Some ''GAS''),
      SetInitial (Some ''LIQUID''),
      Fire ''condense'']"


text \<open>
  Two shortcuts registered as each other's after-hook: every commit fires the other
  event, whose transition leaves the state just entered.
\<close>

definition pingPong :: "nat fsm" where
  "pingPong =
     snd (state
       (after
          (after
             (transition (transition (new_FSM Map.empty 0 False) ''freeze'' ''LIQUID'' ''SOLID'')
                ''melts'' ''SOLID'' ''LIQUID'')
             ''freeze'' (MethodName ''melts''))
          ''melts'' (MethodName ''freeze''))
       (Some ''LIQUID''))"

definition pingPongRegistry :: "'u fsm \<Rightarrow> bool" where
  "pingPongRegistry fsm =
     (transitions fsm =
        [\<lparr>data_from = ''LIQUID'', data_to = ''SOLID'', data_event = ''freeze''\<rparr>,
         \<lparr>data_from = ''SOLID'', data_to = ''LIQUID'', data_event = ''melts''\<rparr>]
      \<and> uniqueEvents fsm = [''freeze'', ''melts'']
      \<and> beforeHooks fsm = Map.empty \<and> onHooks fsm = Map.empty
      \<and> afterHooks fsm = [''freeze'' \<mapsto> [Shortcut ''melts''], ''melts'' \<mapsto> [Shortcut ''freeze'']]
      \<and> members fsm = [''freeze'' \<mapsto> Shortcut ''freeze'', ''melts'' \<mapsto> Shortcut ''melts'']
      \<and> \<not> showState fsm)"

definition pingPongTurn :: "'u fsm \<Rightarrow> string \<Rightarrow> bool" where
  "pingPongTurn fsm E =
     (pingPongRegistry fsm
      \<and> (E = ''freeze'' \<and> p_state fsm = Some ''LIQUID'' \<or> E = ''melts'' \<and> p_state fsm = Some ''SOLID''))"

text \<open>The four accessors of the transition context, read together.\<close>

definition contextOf :: "'u fsm \<Rightarrow> string option \<times> string option \<times> string option \<times> string option" where
  "contextOf fsm = (transitionName fsm, fromState fsm, toState fsm, nextState fsm)"

subsection \<open>Vocabulary of the properties\<close>

text \<open>
  A firing does not re-enter the engine when every callable it can reach is a method:
  the three slots of the derived names, the three hook lists of the event and, when
  the state change is reported, the \<^verbatim>\<open>infoMsg\<close> property.
\<close>

definition isMethod :: "'u callable \<Rightarrow> bool" where
  "isMethod hook = (case hook of Method f \<Rightarrow> True | Shortcut event \<Rightarrow> False)"

definition plainSlot :: "'u fsm \<Rightarrow> string \<Rightarrow> bool" where
  "plainSlot fsm name = (case members fsm name of Some hook \<Rightarrow> isMethod hook | None \<Rightarrow> True)"

fun phaseOf :: "call \<Rightarrow> phase" where "phaseOf (Call ph ev sl r) = ph"
fun eventOf :: "call \<Rightarrow> string" where "eventOf (Call ph ev sl r) = ev"
fun slotOf :: "call \<Rightarrow> slot" where "slotOf (Call ph ev sl r) = sl"
fun returned :: "call \<Rightarrow> bool" where "returned (Call ph ev sl r) = r"

fun entryOf :: "call \<Rightarrow> phase \<times> string \<times> slot" where
  "entryOf (Call ph ev sl r) = (ph, ev, sl)"

fun explicitEntries :: "phase \<Rightarrow> string \<Rightarrow> nat \<Rightarrow> nat \<Rightarrow> (phase \<times> string \<times> slot) list" where
  "explicitEntries ph ev n 0 = []"
| "explicitEntries ph ev n (Suc k) = (ph, ev, Explicit n) # explicitEntries ph ev (Suc n) k"


definition lookupTransition :: "'u fsm \<Rightarrow> string \<Rightarrow> transitionData option" where
  "lookupTransition fsm E =
     List.find (\<lambda>t. data_event t = E \<and> Some (data_from t) = p_state fsm) (transitions fsm)"

definition nonReentrant :: "'u fsm \<Rightarrow> string \<Rightarrow> bool" where
  "nonReentrant fsm E =
     (plainSlot fsm (nameConvert (''before_'' @ E)) \<and> list_all isMethod (hooksOf (beforeHooks fsm) E)
      \<and> plainSlot fsm (nameConvert (''on_'' @ E)) \<and> list_all isMethod (hooksOf (onHooks fsm) E)
      \<and> plainSlot fsm (nameConvert (''after_'' @ E)) \<and> list_all isMethod (hooksOf (afterHooks fsm) E)
      \<and> (showState fsm \<longrightarrow> plainSlot fsm ''infoMsg''))"

definition derivedEntry :: "'u fsm \<Rightarrow> phase \<Rightarrow> string \<Rightarrow> string \<Rightarrow> (phase \<times> string \<times> slot) list" where
  "derivedEntry fsm ph prefix E =
     (case members fsm (nameConvert (prefix @ E)) of Some hook \<Rightarrow> [(ph, E, Derived)] | None \<Rightarrow> [])"

definition blockedResult :: "'u fsm \<Rightarrow> string \<Rightarrow> 'u \<Rightarrow> call list \<Rightarrow> 'u fsm" where
  "blockedResult fsm E u cs =
     fsm\<lparr>p_transitionName := Some E, p_fromState := p_state fsm,
         p_toState := (case lookupTransition fsm E of Some t \<Rightarrow> Some (data_to t) | None \<Rightarrow> p_toState fsm),
         p_nextState := Some [], user := u, calls := calls fsm @ cs\<rparr>"

definition committedResult :: "'u fsm \<Rightarrow> transitionData \<Rightarrow> 'u \<Rightarrow> (string \<times> string) list \<Rightarrow> call list \<Rightarrow> 'u fsm" where
  "committedResult fsm t u ns cs =
     fsm\<lparr>p_state := Some (data_to t), p_transitionName := Some [], p_fromState := Some [],
         p_toState := Some [], p_nextState := Some [], user := u, notices := ns,
         calls := calls fsm @ cs\<rparr>"

definition guardTrace :: "'u fsm \<Rightarrow> string \<Rightarrow> call list \<Rightarrow> call list \<Rightarrow> nat \<Rightarrow> bool" where
  "guardTrace fsm E ds es k =
     (map entryOf ds = derivedEntry fsm Before ''before_'' E
      \<and> map entryOf es = explicitEntries Before E 0 k
      \<and> k \<le> length (hooksOf (beforeHooks fsm) E)
      \<and> ((\<forall>c\<in>set es. returned c) \<longrightarrow> k = length (hooksOf (beforeHooks fsm) E))
      \<and> (\<forall>c\<in>set (butlast es). returned c))"

text \<open>
  What a firing, re-entered or not, leaves alone: the registry; and the current state
  is the old one or the target of a registered transition.
\<close>

definition registryKept :: "'u fsm \<Rightarrow> 'u fsm \<Rightarrow> bool" where
  "registryKept fsm fsm' =
     (transitions fsm' = transitions fsm \<and> uniqueStates fsm' = uniqueStates fsm
      \<and> uniqueEvents fsm' = uniqueEvents fsm
      \<and> (p_state fsm' = p_state fsm \<or> (\<exists>t\<in>set (transitions fsm). p_state fsm' = Some (data_to t))))"




text \<open>The hook invocations made between two snapshots of the same object.\<close>

definition newCalls :: "'u fsm \<Rightarrow> 'u fsm \<Rightarrow> call list" where
  "newCalls fsm fsm' = drop (length (calls fsm)) (calls fsm')"

subsection \<open>StateSafe: the log queue\<close>

text \<open>
  The fields that \<^verbatim>\<open>StateSafe\<close> adds to \<^verbatim>\<open>FSM\<close>, and its surroundings: \<open>pending\<close> is
  the call of \<^verbatim>\<open>fs.promises.appendFile\<close> that \<^verbatim>\<open>processLogQueue\<close> is awaiting (path and
  data), \<open>files\<close> the contents of the files, \<open>console\<close> and \<open>errors\<close> what went to
  \<^verbatim>\<open>console.log\<close> and \<^verbatim>\<open>console.error\<close>.
\<close>

record logger =
  authorName :: string
  appName :: string
  majorVersion :: string
  minorVersion :: string
  patchVersion :: string
  logFileLocation :: string
  logQueue :: "string list"
  writing :: bool
  message :: string
  tag :: string
  useColor :: bool
  pending :: "(string \<times> string) option"
  files :: "string \<Rightarrow> string"
  console :: "string list"
  errors :: "string list"



definition newline :: string where
  "newline = [CHR 0x0A]"

text \<open>The ANSI colour codes and the formatting of a log line.\<close>

definition ESC :: string where "ESC = [CHR 0x1B]"
definition BOLD :: string where "BOLD = ESC @ ''[1m''"
definition DARK_AMBER :: string where "DARK_AMBER = ESC @ ''[33m''"
definition DARK_BLUE :: string where "DARK_BLUE = ESC @ ''[34m''"
definition DARK_TURQUOISE :: string where "DARK_TURQUOISE = ESC @ ''[36m''"
definition END :: string where "END = ESC @ ''[0m''"
definition FLASHING :: string where "FLASHING = ESC @ ''[5m''"
definition ITALICS :: string where "ITALICS = ESC @ ''[3m''"
definition LIGHT_RED :: string where "LIGHT_RED = ESC @ ''[91m''"
definition LIGHT_AMBER :: string where "LIGHT_AMBER = ESC @ ''[93m''"
definition LIGHT_BLUE :: string where "LIGHT_BLUE = ESC @ ''[94m''"
definition LIGHT_GREEN :: string where "LIGHT_GREEN = ESC @ ''[92m''"
definition LIGHT_TURQUOISE :: string where "LIGHT_TURQUOISE = ESC @ ''[96m''"

fun join :: "string \<Rightarrow> string list \<Rightarrow> string" where
  "join sep [] = []"
| "join sep [part] = part"
| "join sep (part # parts) = part @ sep @ join sep parts"

text \<open>\<open>timeMsg\<close> is \<^verbatim>\<open>new Date().toISOString()\<close>, read from the clock by the caller.\<close>

definition now :: "logger \<Rightarrow> string \<Rightarrow> string \<Rightarrow> string" where
  "now lg timeMsg color = (if useColor lg then color @ BOLD @ ITALICS @ timeMsg @ END else timeMsg)"

definition formatHeader :: "logger \<Rightarrow> string \<Rightarrow> string" where
  "formatHeader lg color =
     (if useColor lg
      then color @ BOLD @ appName lg @ ''(v'' @ majorVersion lg @ ''.'' @ minorVersion lg @ ''.''
             @ patchVersion lg @ '')'' @ END
      else appName lg @ ''(v'' @ majorVersion lg @ ''.'' @ minorVersion lg @ ''.''
             @ patchVersion lg @ '')'')"

definition formatTag :: "logger \<Rightarrow> string \<Rightarrow> string" where
  "formatTag lg color =
     (if useColor lg \<and> tag lg \<noteq> [] then '' ['' @ color @ tag lg @ END @ '']: ''
      else ''['' @ tag lg @ '']: '')"

definition coloredMsg :: "logger \<Rightarrow> string \<Rightarrow> string" where
  "coloredMsg lg color =
     join newline
       (map (\<lambda>line. if useColor lg then ''  '' @ color @ line @ END else ''  '' @ line)
          (split CHR 0x0A (message lg)))"

definition formatMessage :: "logger \<Rightarrow> string \<Rightarrow> string \<Rightarrow> string \<Rightarrow> string \<Rightarrow> string" where
  "formatMessage lg timeMsg headerColor msgColor colorTag =
     now lg timeMsg headerColor @ '' '' @ formatHeader lg headerColor @ '' ''
       @ formatTag lg colorTag @ newline @ coloredMsg lg msgColor"

text \<open>
  \<^verbatim>\<open>processLogQueue\<close> is an async function: it runs until it awaits an append, and runs
  on when the append has settled. \<open>nextMessage\<close> is the loop up to the next \<^verbatim>\<open>await\<close>:
  it shifts messages off the queue, passing over the falsy (empty) ones.
\<close>

fun nextMessage :: "string list \<Rightarrow> (string \<times> string list) option" where
  "nextMessage [] = None"
| "nextMessage (msg # queue) =
     (if msg \<noteq> [] then Some (msg, queue) else nextMessage queue)"

definition resumeLogQueue :: "logger \<Rightarrow> logger" where
  "resumeLogQueue lg =
     (case nextMessage (logQueue lg) of
        Some (msg, queue) \<Rightarrow>
          lg\<lparr>logQueue := queue, pending := Some (logFileLocation lg, msg @ newline)\<rparr>
      | None \<Rightarrow> lg\<lparr>logQueue := [], pending := None, writing := False\<rparr>)"

definition processLogQueue :: "logger \<Rightarrow> logger" where
  "processLogQueue lg = resumeLogQueue (lg\<lparr>writing := True\<rparr>)"

definition log :: "logger \<Rightarrow> string \<Rightarrow> logger" where
  "log lg data =
     (if logFileLocation lg \<noteq> [] then
        let lg = lg\<lparr>logQueue := logQueue lg @ [data]\<rparr>
        in if \<not> writing lg then processLogQueue lg else lg
      else lg\<lparr>console := console lg @ [data]\<rparr>)"

definition infoMsg :: "logger \<Rightarrow> string \<Rightarrow> string \<Rightarrow> string \<Rightarrow> logger" where
  "infoMsg lg timeMsg msg t =
     (let lg = lg\<lparr>tag := t, message := msg\<rparr>
      in log lg (formatMessage lg timeMsg DARK_BLUE LIGHT_BLUE LIGHT_TURQUOISE))"

definition safeMsg :: "logger \<Rightarrow> string \<Rightarrow> string \<Rightarrow> string \<Rightarrow> logger" where
  "safeMsg lg timeMsg msg t =
     (let lg = lg\<lparr>tag := t, message := msg\<rparr>
      in log lg (formatMessage lg timeMsg DARK_TURQUOISE LIGHT_TURQUOISE LIGHT_GREEN))"

definition criticalMsg :: "logger \<Rightarrow> string \<Rightarrow> string \<Rightarrow> string \<Rightarrow> logger" where
  "criticalMsg lg timeMsg msg t =
     (let lg = lg\<lparr>tag := t, message := msg\<rparr>
      in log lg (formatMessage lg timeMsg DARK_AMBER LIGHT_RED (LIGHT_AMBER @ FLASHING)))"








text \<open>
  Pairing the \<open>i\<close>-th line with the \<open>i\<close>-th outcome: what the successful appends wrote,
  and what the failed ones reported.
\<close>

definition written :: "string list \<Rightarrow> string option list \<Rightarrow> string" where
  "written ds rs = concat (map (\<lambda>(d, r). d @ newline) (filter (\<lambda>(d, r). r = None) (zip ds rs)))"





section \<open>Properties\<close>

subsection \<open>Firing without re-entry\<close>

lemma explicitEntries_upt: "explicitEntries ph ev n k = map (\<lambda>i. (ph, ev, Explicit i)) [n..<n + k]"
  by (induction k arbitrary: n) (simp_all add: upt_conv_Cons)

lemma callHook_Method [simp]:
  "callHook R ph ev sl (Method f) fsm =
     Some (fst (f (engine.truncate fsm) (user fsm)),
           fsm\<lparr>user := snd (f (engine.truncate fsm) (user fsm)),
                calls := calls fsm @ [Call ph ev sl (fst (f (engine.truncate fsm) (user fsm)))]\<rparr>)"
  by (simp add: callHook_def logCall_def split: prod.splits)

lemma truncate_frame [simp]:
  "engine.truncate (fsm\<lparr>user := u, calls := cs\<rparr>) = engine.truncate fsm"
  "engine.truncate (fsm\<lparr>user := u\<rparr>) = engine.truncate fsm"
  "engine.truncate (fsm\<lparr>calls := cs\<rparr>) = engine.truncate fsm"
  by (simp_all add: engine.truncate_def)

lemma every_plain:
  assumes "list_all isMethod hs"
  shows "\<exists>r u cs k.
           every (\<lambda>(i, hook). callHook R Before E (Explicit i) hook) (enumerate n hs) fsm
             = Some (r, fsm\<lparr>user := u, calls := calls fsm @ cs\<rparr>)
         \<and> k \<le> length hs \<and> map entryOf cs = explicitEntries Before E n k
         \<and> (r \<longleftrightarrow> (\<forall>c\<in>set cs. returned c)) \<and> (r \<longrightarrow> k = length hs)
         \<and> (\<forall>c\<in>set (butlast cs). returned c)"
  using assms
proof (induction hs arbitrary: n fsm)
  case Nil
  show ?case
    by (rule exI [of _ True], rule exI [of _ "user fsm"], rule exI [of _ "[]"], rule exI [of _ 0])
      simp
next
  case (Cons h hs)
  then obtain f where h: "h = Method f" by (cases h) (auto simp: isMethod_def)
  define r0 where "r0 = fst (f (engine.truncate fsm) (user fsm))"
  define u0 where "u0 = snd (f (engine.truncate fsm) (user fsm))"
  define c0 where "c0 = Call Before E (Explicit n) r0"
  define fsm0 where "fsm0 = fsm\<lparr>user := u0, calls := calls fsm @ [c0]\<rparr>"
  show ?case
  proof (cases r0)
    case False
    then show ?thesis
      by (intro exI [of _ False] exI [of _ u0] exI [of _ "[c0]"] exI [of _ 1])
        (simp add: h r0_def u0_def c0_def)
  next
    case True
    from Cons have "list_all isMethod hs" by simp
    from Cons.IH [OF this, of "Suc n" fsm0]
    obtain r u cs k where
      ev: "every (\<lambda>(i, hook). callHook R Before E (Explicit i) hook) (enumerate (Suc n) hs) fsm0
             = Some (r, fsm0\<lparr>user := u, calls := calls fsm0 @ cs\<rparr>)"
      and k: "k \<le> length hs" and en: "map entryOf cs = explicitEntries Before E (Suc n) k"
      and r: "r \<longleftrightarrow> (\<forall>c\<in>set cs. returned c)" and full: "r \<longrightarrow> k = length hs"
      and bl: "\<forall>c\<in>set (butlast cs). returned c"
      by blast
    show ?thesis
      using True k en r full bl ev
      by (intro exI [of _ r] exI [of _ u] exI [of _ "c0 # cs"] exI [of _ "Suc k"])
        (auto simp add: h r0_def u0_def c0_def fsm0_def)
  qed
qed


lemma forEach_plain:
  assumes "list_all isMethod hs"
  shows "\<exists>u cs.
           forEach (\<lambda>(i, hook) fsm. do { (r, fsm) \<leftarrow> callHook R ph E (Explicit i) hook fsm; Some fsm })
             (enumerate n hs) fsm
             = Some (fsm\<lparr>user := u, calls := calls fsm @ cs\<rparr>)
         \<and> map entryOf cs = explicitEntries ph E n (length hs)"
  using assms
proof (induction hs arbitrary: n fsm)
  case Nil
  show ?case
    by (rule exI [of _ "user fsm"], rule exI [of _ "[]"]) simp
next
  case (Cons h hs)
  then obtain f where h: "h = Method f" by (cases h) (auto simp: isMethod_def)
  define r0 where "r0 = fst (f (engine.truncate fsm) (user fsm))"
  define u0 where "u0 = snd (f (engine.truncate fsm) (user fsm))"
  define c0 where "c0 = Call ph E (Explicit n) r0"
  define fsm0 where "fsm0 = fsm\<lparr>user := u0, calls := calls fsm @ [c0]\<rparr>"
  from Cons have "list_all isMethod hs" by simp
  from Cons.IH [OF this, of "Suc n" fsm0]
  obtain u cs where
    ev: "forEach (\<lambda>(i, hook) fsm. do { (r, fsm) \<leftarrow> callHook R ph E (Explicit i) hook fsm; Some fsm })
           (enumerate (Suc n) hs) fsm0
           = Some (fsm0\<lparr>user := u, calls := calls fsm0 @ cs\<rparr>)"
    and en: "map entryOf cs = explicitEntries ph E (Suc n) (length hs)"
    by blast
  show ?case
    using en ev
    by (intro exI [of _ u] exI [of _ "c0 # cs"])
      (simp add: h r0_def u0_def c0_def fsm0_def)
qed

lemma derived_plain:
  assumes "plainSlot fsm name"
  shows "\<exists>r u cs.
           callIfFunction R ph E (members fsm name) fsm
             = Some (r, fsm\<lparr>user := u, calls := calls fsm @ cs\<rparr>)
         \<and> map entryOf cs = (case members fsm name of Some hook \<Rightarrow> [(ph, E, Derived)] | None \<Rightarrow> [])
         \<and> (r \<longleftrightarrow> (\<forall>c\<in>set cs. returned c))"
proof (cases "members fsm name")
  case None
  then show ?thesis
    by (intro exI [of _ True] exI [of _ "user fsm"] exI [of _ "[]"]) (simp add: callIfFunction_def)
next
  case (Some hook)
  with assms obtain f where h: "hook = Method f"
    by (cases hook) (auto simp: plainSlot_def isMethod_def)
  show ?thesis
    by (intro exI [of _ "fst (f (engine.truncate fsm) (user fsm))"]
        exI [of _ "snd (f (engine.truncate fsm) (user fsm))"]
        exI [of _ "[Call ph E Derived (fst (f (engine.truncate fsm) (user fsm)))]"])
      (simp add: Some h callIfFunction_def)
qed

lemma stateChanged_plain:
  assumes "showState fsm \<longrightarrow> plainSlot fsm ''infoMsg''"
  shows "\<exists>u ns. stateChanged R fsm func = Some (fsm\<lparr>user := u, notices := ns\<rparr>)"
proof (cases "showState fsm")
  case False
  then show ?thesis
    by (intro exI [of _ "user fsm"] exI [of _ "notices fsm"]) (simp add: stateChanged_def)
next
  case True
  show ?thesis
  proof (cases "members fsm ''infoMsg''")
    case None
    with True show ?thesis
      by (intro exI [of _ "user fsm"]
          exI [of _ "notices fsm @ [(stateChangedMsg fsm func, ''STATE CHANGED'')]"])
        (simp add: stateChanged_def)
  next
    case (Some hook)
    with assms True obtain f where h: "hook = Method f"
      by (cases hook) (auto simp: plainSlot_def isMethod_def)
    show ?thesis
      using True
      by (intro exI [of _ "snd (f (engine.truncate fsm) (user fsm))"] exI [of _ "notices fsm"])
        (simp add: stateChanged_def Some h split: prod.splits)
  qed
qed


lemma fire_nonReentrant:
  assumes nr: "nonReentrant fsm E" and ev: "E \<in> set (uniqueEvents fsm)"
  obtains (blocked) u ds es k where
      "fire fsm E = Some (blockedResult fsm E u (ds @ es))"
      "guardTrace fsm E ds es k"
      "lookupTransition fsm E = None \<or> \<not> (\<forall>c\<in>set (ds @ es). returned c)"
    | (committed) t u ns ds es k os where
      "lookupTransition fsm E = Some t"
      "fire fsm E = Some (committedResult fsm t u ns (ds @ es @ os))"
      "guardTrace fsm E ds es k"
      "\<forall>c\<in>set (ds @ es). returned c"
      "map entryOf os =
         derivedEntry fsm On ''on_'' E @ explicitEntries On E 0 (length (hooksOf (onHooks fsm) E))
         @ derivedEntry fsm After ''after_'' E
         @ explicitEntries After E 0 (length (hooksOf (afterHooks fsm) E))"
proof -
  define toS where "toS = (case lookupTransition fsm E of Some t \<Rightarrow> Some (data_to t) | None \<Rightarrow> p_toState fsm)"
  define fsm1 where "fsm1 = fsm\<lparr>p_transitionName := Some E, p_fromState := p_state fsm,
         p_toState := toS, p_nextState := Some []\<rparr>"
  from nr have "plainSlot fsm1 (nameConvert (''before_'' @ E))"
    by (simp add: nonReentrant_def plainSlot_def fsm1_def)
  from derived_plain [OF this, of fire Before E]
  obtain r2 u2 ds where
    s2: "callIfFunction fire Before E (members fsm (nameConvert (''before_'' @ E))) fsm1
             = Some (r2, fsm1\<lparr>user := u2, calls := calls fsm1 @ ds\<rparr>)"
    and d2: "map entryOf ds = derivedEntry fsm Before ''before_'' E"
    and r2: "r2 \<longleftrightarrow> (\<forall>c\<in>set ds. returned c)"
    unfolding derivedEntry_def fsm1_def by auto
  define fsm2 where "fsm2 = fsm1\<lparr>user := u2, calls := calls fsm1 @ ds\<rparr>"
  from nr have "list_all isMethod (hooksOf (beforeHooks fsm) E)" by (simp add: nonReentrant_def)
  from every_plain [OF this, of fire E 0 fsm2]
  obtain r1 u1 es k where
    s1: "every (\<lambda>(i, hook). callHook fire Before E (Explicit i) hook)
           (enumerate 0 (hooksOf (beforeHooks fsm) E)) fsm2
           = Some (r1, fsm2\<lparr>user := u1, calls := calls fsm2 @ es\<rparr>)"
    and k: "k \<le> length (hooksOf (beforeHooks fsm) E)"
    and e1: "map entryOf es = explicitEntries Before E 0 k"
    and r1: "r1 \<longleftrightarrow> (\<forall>c\<in>set es. returned c)"
    and full: "r1 \<longrightarrow> k = length (hooksOf (beforeHooks fsm) E)"
    and bl: "\<forall>c\<in>set (butlast es). returned c"
    by blast
  define fsm3 where "fsm3 = fsm2\<lparr>user := u1, calls := calls fsm2 @ es\<rparr>"
  have gt: "guardTrace fsm E ds es k"
    using d2 k e1 r1 full bl by (simp add: guardTrace_def)
  have fsm3: "fsm3 = blockedResult fsm E u1 (ds @ es)"
    by (simp add: fsm3_def fsm2_def fsm1_def blockedResult_def toS_def)
  show thesis
  proof (cases "lookupTransition fsm E")
    case None
    have "fire fsm E = Some fsm3"
      using s2 s1 None ev
      by (subst fire.simps)
        (simp add: Let_def fsm3_def fsm2_def fsm1_def toS_def lookupTransition_def)
    with fsm3 gt None show thesis by (intro blocked [of u1 ds es k]) simp_all
  next
    case (Some t)
    show thesis
    proof (cases "r1 \<and> r2")
      case False
      have "fire fsm E = Some fsm3"
        using s2 s1 Some ev False
        by (subst fire.simps)
          (auto simp add: Let_def fsm3_def fsm2_def fsm1_def toS_def lookupTransition_def)
      moreover from False r1 r2 have "\<not> (\<forall>c\<in>set (ds @ es). returned c)" by auto
      ultimately show thesis using fsm3 gt by (intro blocked [of u1 ds es k]) simp_all
    next
      case True
      define fsm4 where "fsm4 = fsm3\<lparr>p_nextState := Some (data_to t)\<rparr>"
      from nr have "plainSlot fsm4 (nameConvert (''on_'' @ E))"
        by (simp add: nonReentrant_def plainSlot_def fsm4_def fsm3_def fsm2_def fsm1_def)
      from derived_plain [OF this, of fire On E]
      obtain r5 u5 dos where
        s5: "callIfFunction fire On E (members fsm (nameConvert (''on_'' @ E))) fsm4
               = Some (r5, fsm4\<lparr>user := u5, calls := calls fsm4 @ dos\<rparr>)"
        and d5: "map entryOf dos = derivedEntry fsm On ''on_'' E"
        unfolding derivedEntry_def fsm4_def fsm3_def fsm2_def fsm1_def by auto
      define fsm5 where "fsm5 = fsm4\<lparr>user := u5, calls := calls fsm4 @ dos\<rparr>"
      have h5: "hooksOf (onHooks fsm5) E = hooksOf (onHooks fsm) E"
        by (simp add: fsm5_def fsm4_def fsm3_def fsm2_def fsm1_def)
      from nr have "list_all isMethod (hooksOf (onHooks fsm) E)" by (simp add: nonReentrant_def)
      from forEach_plain [OF this, of fire On E 0 fsm5]
      obtain u6 eos where
        s6: "invokeOnHooks fire fsm5 E = Some (fsm5\<lparr>user := u6, calls := calls fsm5 @ eos\<rparr>)"
        and e6: "map entryOf eos = explicitEntries On E 0 (length (hooksOf (onHooks fsm) E))"
        unfolding invokeOnHooks_def Let_def h5 by blast
      define fsm7 where "fsm7 = fsm5\<lparr>user := u6, calls := calls fsm5 @ eos,
                                     p_state := Some (data_to t), p_nextState := Some []\<rparr>"
      from nr have "showState fsm7 \<longrightarrow> plainSlot fsm7 ''infoMsg''"
        by (simp add: nonReentrant_def plainSlot_def fsm7_def fsm5_def fsm4_def fsm3_def fsm2_def fsm1_def)
      from stateChanged_plain [OF this, of fire "[]"]
      obtain u8 ns where
        s8: "stateChanged fire fsm7 [] = Some (fsm7\<lparr>user := u8, notices := ns\<rparr>)"
        by blast
      define fsm8 where "fsm8 = fsm7\<lparr>user := u8, notices := ns\<rparr>"
      from nr have "plainSlot fsm8 (nameConvert (''after_'' @ E))"
        by (simp add: nonReentrant_def plainSlot_def fsm8_def fsm7_def fsm5_def fsm4_def fsm3_def fsm2_def fsm1_def)
      from derived_plain [OF this, of fire After E]
      obtain r9 u9 das where
        s9: "callIfFunction fire After E (members fsm (nameConvert (''after_'' @ E))) fsm8
               = Some (r9, fsm8\<lparr>user := u9, calls := calls fsm8 @ das\<rparr>)"
        and d9: "map entryOf das = derivedEntry fsm After ''after_'' E"
        unfolding derivedEntry_def fsm8_def fsm7_def fsm5_def fsm4_def fsm3_def fsm2_def fsm1_def by auto
      define fsm9 where "fsm9 = fsm8\<lparr>user := u9, calls := calls fsm8 @ das\<rparr>"
      have h9: "hooksOf (afterHooks fsm9) E = hooksOf (afterHooks fsm) E"
        by (simp add: fsm9_def fsm8_def fsm7_def fsm5_def fsm4_def fsm3_def fsm2_def fsm1_def)
      from nr have "list_all isMethod (hooksOf (afterHooks fsm) E)" by (simp add: nonReentrant_def)
      from forEach_plain [OF this, of fire After E 0 fsm9]
      obtain u10 eas where
        s10: "invokeAfterHooks fire fsm9 E = Some (fsm9\<lparr>user := u10, calls := calls fsm9 @ eas\<rparr>)"
        and e10: "map entryOf eas = explicitEntries After E 0 (length (hooksOf (afterHooks fsm) E))"
        unfolding invokeAfterHooks_def Let_def h9 by blast
      have "fire fsm E = Some (committedResult fsm t u10 ns (ds @ es @ (dos @ eos @ das @ eas)))"
        using s2 s1 s5 s6 s8 s9 s10 Some ev True
        by (subst fire.simps)
          (simp add: Let_def fsm9_def fsm8_def fsm7_def fsm5_def fsm4_def fsm3_def fsm2_def fsm1_def
            toS_def lookupTransition_def committedResult_def)
      moreover from True r1 r2 have "\<forall>c\<in>set (ds @ es). returned c" by auto
      moreover have "map entryOf (dos @ eos @ das @ eas) =
         derivedEntry fsm On ''on_'' E @ explicitEntries On E 0 (length (hooksOf (onHooks fsm) E))
         @ derivedEntry fsm After ''after_'' E
         @ explicitEntries After E 0 (length (hooksOf (afterHooks fsm) E))"
        using d5 e6 d9 e10 by simp
      ultimately show thesis using Some gt
        by (intro committed [of t u10 ns ds es "dos @ eos @ das @ eas" k]) simp_all
    qed
  qed
qed


lemma phaseOf_entryOf: "phaseOf c = fst (entryOf c)"
  by (cases c) simp

lemma derivedEntry_phase: "e \<in> set (derivedEntry fsm ph prefix E) \<Longrightarrow> fst e = ph"
  by (auto simp: derivedEntry_def split: option.splits)

lemma explicitEntries_phase: "e \<in> set (explicitEntries ph E n k) \<Longrightarrow> fst e = ph"
  by (induction k arbitrary: n) auto

lemma phases_of_trace:
  assumes "map entryOf cs = es" and "\<forall>e\<in>set es. fst e = ph" and "c \<in> set cs"
  shows "phaseOf c = ph"
  using assms by (auto simp: phaseOf_entryOf)

lemma guardTrace_Before:
  assumes "guardTrace fsm E ds es k" and "c \<in> set (ds @ es)"
  shows "phaseOf c = Before"
proof -
  from assms(1) have "map entryOf (ds @ es) = derivedEntry fsm Before ''before_'' E @ explicitEntries Before E 0 k"
    by (simp add: guardTrace_def)
  moreover have "\<forall>e\<in>set (derivedEntry fsm Before ''before_'' E @ explicitEntries Before E 0 k). fst e = Before"
    by (auto dest: derivedEntry_phase explicitEntries_phase)
  ultimately show ?thesis using assms(2) by (rule phases_of_trace)
qed

lemma commit_trace_not_Before:
  assumes "map entryOf os =
         derivedEntry fsm On ''on_'' E @ explicitEntries On E 0 n
         @ derivedEntry fsm After ''after_'' E @ explicitEntries After E 0 m"
    and "c \<in> set os"
  shows "phaseOf c \<noteq> Before"
proof -
  from assms have "entryOf c \<in> set (derivedEntry fsm On ''on_'' E @ explicitEntries On E 0 n
         @ derivedEntry fsm After ''after_'' E @ explicitEntries After E 0 m)"
    by (metis image_eqI set_map)
  then have "fst (entryOf c) = On \<or> fst (entryOf c) = After"
    by (auto dest: derivedEntry_phase explicitEntries_phase)
  then show ?thesis by (auto simp: phaseOf_entryOf)
qed

lemma newCalls_results [simp]:
  "newCalls fsm (blockedResult fsm E u cs) = cs"
  "newCalls fsm (committedResult fsm t u ns cs) = cs"
  "newCalls fsm fsm = []"
  by (simp_all add: newCalls_def blockedResult_def committedResult_def)

lemma p_state_results [simp]:
  "p_state (blockedResult fsm E u cs) = p_state fsm"
  "p_state (committedResult fsm t u ns cs) = Some (data_to t)"
  by (simp_all add: blockedResult_def committedResult_def)

lemma fire_unregistered: "E \<notin> set (uniqueEvents fsm) \<Longrightarrow> fire fsm E = Some fsm"
  by (subst fire.simps) simp

lemma fire_returns:
  assumes "nonReentrant fsm E"
  shows "\<exists>fsm'. fire fsm E = Some fsm'"
proof (cases "E \<in> set (uniqueEvents fsm)")
  case False
  then show ?thesis by (simp add: fire_unregistered)
next
  case True
  with assms show ?thesis by (cases rule: fire_nonReentrant) blast+
qed



subsection \<open>Guards\<close>







subsection \<open>Order of the hooks\<close>



subsection \<open>The transition context after a firing\<close>

text \<open>
  What the four accessors report after a firing of a registered event that does not
  re-enter: empty strings when the transition was committed; otherwise the event, the
  current state, the target of the transition (or the previous value when no transition
  leaves the current state) and an empty next state.
\<close>

lemma contextOf_results [simp]:
  "contextOf (blockedResult fsm E u cs) =
     (Some E, p_state fsm,
      (case lookupTransition fsm E of Some t \<Rightarrow> Some (data_to t) | None \<Rightarrow> p_toState fsm), Some [])"
  "contextOf (committedResult fsm t u ns cs) = (Some [], Some [], Some [], Some [])"
  by (simp_all add: contextOf_def blockedResult_def committedResult_def transitionName_def
      fromState_def toState_def nextState_def)

lemma context_after_fire:
  assumes "nonReentrant fsm E" and "E \<in> set (uniqueEvents fsm)" and "fire fsm E = Some fsm'"
  shows "contextOf fsm' =
           (if lookupTransition fsm E \<noteq> None
               \<and> (\<forall>c\<in>set (newCalls fsm fsm'). phaseOf c = Before \<longrightarrow> returned c)
            then (Some [], Some [], Some [], Some [])
            else (Some E, p_state fsm,
                  (case lookupTransition fsm E of Some t \<Rightarrow> Some (data_to t) | None \<Rightarrow> p_toState fsm),
                  Some []))"
  using assms(1,2)
proof (cases rule: fire_nonReentrant)
  case (blocked u ds es k)
  from blocked(2) have "\<And>c. c \<in> set (ds @ es) \<Longrightarrow> phaseOf c = Before"
    by (rule guardTrace_Before)
  with blocked(1,3) assms(3) show ?thesis by auto
next
  case (committed t u ns ds es k os)
  from committed(5) have "\<And>c. c \<in> set os \<Longrightarrow> phaseOf c \<noteq> Before"
    by (rule commit_trace_not_Before)
  with committed(1,2,4) assms(3) show ?thesis by auto
qed

text \<open>
  C1. The four context accessors are claimed to report empty after every \<^verbatim>\<open>fire\<close>.
  The code sets them before the guards are evaluated and resets them only at the end
  of the committing branch. After a firing that a guard blocked they still name the
  event, the source state and the target state; after a firing without a transition
  from the current state they still name the event and the current state, and the
  target may be the one of an earlier, blocked firing of another event.
\<close>

theorem blocked_fire_keeps_context:
  "map_option contextOf (fire guarded ''condense'')
     = Some (Some ''condense'', Some ''GAS'', Some ''LIQUID'', Some [])
   \<and> map_option contextOf (fire (seeded Map.empty) ''freeze'')
     = Some (Some ''freeze'', Some ''GAS'', Some [], Some [])
   \<and> map_option contextOf (run [Fire ''condense'', Fire ''freeze''] guarded)
     = Some (Some ''freeze'', Some ''GAS'', Some ''LIQUID'', Some [])"
  by code_simp

subsection \<open>Registering a hook under its derived name\<close>

text \<open>
  C6. \<^verbatim>\<open>on\<close> and \<^verbatim>\<open>before\<close> return at once when the name is the derived one;
  \<^verbatim>\<open>after\<close> has no such test. With a method \<^verbatim>\<open>afterMyEvent\<close>, registering that name
  for \<^verbatim>\<open>my_event\<close> extends the hook list, and one firing invokes the method twice.
\<close>

theorem after_derived_name_registered:
  "nameConvert ''after_my_event'' = ''afterMyEvent''
   \<and> length (hooksOf (afterHooks myEvent) ''my_event'') = 1
   \<and> map_option stateAndCalls (fire myEvent ''my_event'')
       = Some (Some ''B'', [Call After ''my_event'' Derived True, Call After ''my_event'' (Explicit 0) True])
   \<and> map_option user (fire myEvent ''my_event'') = Some 2"
  by code_simp


lemma on_derived_name_skipped: "on fsm E (MethodName (nameConvert (''on_'' @ E))) = fsm"
  by (simp add: on_def isName_def)

lemma before_derived_name_skipped: "before fsm E (MethodName (nameConvert (''before_'' @ E))) = fsm"
  by (simp add: before_def isName_def)

subsection \<open>What every firing preserves\<close>

lemma registryKept_refl [simp]: "registryKept fsm fsm"
  by (simp add: registryKept_def)












lemma set_setAdd [simp]: "set (setAdd x xs) = insert x (set xs)"
  by (auto simp: setAdd_def)








subsection \<open>A firing that does not return\<close>

text \<open>
  On the machine \<open>pingPong\<close> the firing of \<^verbatim>\<open>freeze\<close> re-enters \<^verbatim>\<open>fire\<close> without end
  (in the host, until the stack overflows): \<open>fire\<close> has no result there.
\<close>

lemma pingPong_registry: "pingPongRegistry pingPong"
  unfolding pingPongRegistry_def pingPong_def
  by (simp add: state_def after_def transition_def new_FSM_def Let_def validateEvent_def
      reservedWords_def TransitionWrapper_def setAdd_def hooksOf_def nameConvert_def
      capitalize_def toLowerCase_def toUpperCase_def lowerLetters_def upperLetters_def fun_upd_twist)


lemma nameConverts:
  "nameConvert ''before_freeze'' = ''beforeFreeze''" "nameConvert ''on_freeze'' = ''onFreeze''"
  "nameConvert ''after_freeze'' = ''afterFreeze''" "nameConvert ''before_melts'' = ''beforeMelts''"
  "nameConvert ''on_melts'' = ''onMelts''" "nameConvert ''after_melts'' = ''afterMelts''"
  by code_simp+

lemma pingPong_never_returns:
  assumes "fire fsm E = Some fsm'"
  shows "\<not> pingPongTurn fsm E"
proof (rule fire.raw_induct [where P = "\<lambda>fsm E fsm'. \<not> pingPongTurn fsm E", OF _ assms])
  fix fire_again :: "'a fsm \<Rightarrow> string \<Rightarrow> 'a fsm option" and fsm E fsm'
  assume IH: "\<And>s e s'. fire_again s e = Some s' \<Longrightarrow> \<not> pingPongTurn s e"
  assume body: "(if E \<in> set (uniqueEvents fsm) then
        let tr = List.find (\<lambda>t. data_event t = E \<and> Some (data_from t) = p_state fsm)
                   (transitions fsm);
            beforeMethod = nameConvert (''before_'' @ E);
            hooks = hooksOf (beforeHooks fsm) E;
            beforeHook2 = members fsm beforeMethod;
            fsm = fsm\<lparr>p_transitionName := Some E, p_fromState := p_state fsm\<rparr>;
            fsm = (case tr of Some t \<Rightarrow> fsm\<lparr>p_toState := Some (data_to t)\<rparr> | None \<Rightarrow> fsm);
            fsm = fsm\<lparr>p_nextState := Some []\<rparr>
        in do {
          (canProceed2, fsm) \<leftarrow> callIfFunction fire_again Before E beforeHook2 fsm;
          (canProceed1, fsm) \<leftarrow>
             every (\<lambda>(i, hook). callHook fire_again Before E (Explicit i) hook)
               (enumerate 0 hooks) fsm;
          (case tr of
             Some t \<Rightarrow>
               if canProceed1 \<and> canProceed2 then do {
                 let fsm = fsm\<lparr>p_nextState := Some (data_to t)\<rparr>;
                 let onMethod = nameConvert (''on_'' @ E);
                 let onHook = members fsm onMethod;
                 (r, fsm) \<leftarrow> callIfFunction fire_again On E onHook fsm;
                 fsm \<leftarrow> invokeOnHooks fire_again fsm E;
                 let fsm = fsm\<lparr>p_state := Some (data_to t)\<rparr>;
                 let fsm = fsm\<lparr>p_nextState := Some []\<rparr>;
                 fsm \<leftarrow> stateChanged fire_again fsm [];
                 let afterMethod = nameConvert (''after_'' @ E);
                 let afterHook = members fsm afterMethod;
                 (r, fsm) \<leftarrow> callIfFunction fire_again After E afterHook fsm;
                 fsm \<leftarrow> invokeAfterHooks fire_again fsm E;
                 Some (fsm\<lparr>p_transitionName := Some [], p_fromState := Some [],
                            p_toState := Some [], p_nextState := Some []\<rparr>)
               } else Some fsm
           | None \<Rightarrow> Some fsm)
        }
      else Some fsm) = Some fsm'"
  show "\<not> pingPongTurn fsm E"
  proof
    assume turn: "pingPongTurn fsm E"
    then have reg: "pingPongRegistry fsm" by (simp add: pingPongTurn_def)
    from turn consider
      (freeze) "E = ''freeze''" "p_state fsm = Some ''LIQUID''"
      | (melts) "E = ''melts''" "p_state fsm = Some ''SOLID''"
      by (auto simp: pingPongTurn_def)
    then show False
    proof cases
      case freeze
      from body reg freeze have "\<exists>s s'. fire_again s ''melts'' = Some s' \<and> pingPongTurn s ''melts''"
        by (auto simp: pingPongRegistry_def pingPongTurn_def Let_def bind_eq_Some_conv
            callIfFunction_def invokeOnHooks_def invokeAfterHooks_def stateChanged_def
            callHook_def hooksOf_def logCall_def nameConverts)
      with IH show False by blast
    next
      case melts
      from body reg melts have "\<exists>s s'. fire_again s ''freeze'' = Some s' \<and> pingPongTurn s ''freeze''"
        by (auto simp: pingPongRegistry_def pingPongTurn_def Let_def bind_eq_Some_conv
            callIfFunction_def invokeOnHooks_def invokeAfterHooks_def stateChanged_def
            callHook_def hooksOf_def logCall_def nameConverts)
      with IH show False by blast
    qed
  qed
qed


lemma pingPong_diverges: "fire pingPong ''freeze'' = None"
proof (cases "fire pingPong ''freeze''")
  case None
  then show ?thesis .
next
  case (Some fsm')
  then have "\<not> pingPongTurn pingPong ''freeze''" by (rule pingPong_never_returns)
  moreover have "p_state pingPong = Some ''LIQUID''" by code_simp
  ultimately show ?thesis using pingPong_registry by (simp add: pingPongTurn_def)
qed

subsection \<open>Reachable states\<close>



lemma chained_calls:
  "map_option stateAndCalls (run chained (new_FSM Map.empty 0 False))
     = Some (Some ''SOLID'', [Call On ''condense'' (Explicit 0) True, Call After ''condense'' (Explicit 0) False])"
  by code_simp

subsection \<open>Rejected registrations\<close>




subsection \<open>The seed operation\<close>



text \<open>
  C10. \<^verbatim>\<open>state("")\<close> is a read: the empty string is falsy, so the call returns the
  current state, which need not be \<^verbatim>\<open>null\<close>, and changes nothing, exactly as the
  call without an argument does.
\<close>

theorem state_empty_string_reads:
  "state fsm (Some []) = (p_state fsm, fsm) \<and> state fsm (Some []) = state fsm None"
  by (simp add: state_def)

subsection \<open>The log queue\<close>














lemma all_settled_written:
  assumes "length rs = length ds" and "\<forall>r\<in>set rs. r = None"
  shows "written ds rs = concat (map (\<lambda>d. d @ newline) ds)"
  using assms
proof (induction ds arbitrary: rs)
  case Nil
  then show ?case by (simp add: written_def)
next
  case (Cons d ds)
  then obtain r rs' where rs: "rs = r # rs'" by (cases rs) auto
  with Cons.prems have "written ds rs' = concat (map (\<lambda>d. d @ newline) ds)"
    by (intro Cons.IH) auto
  with rs Cons.prems show ?case by (simp add: written_def)
qed

lemma formatMessage_nonempty: "formatMessage lg timeMsg headerColor msgColor colorTag \<noteq> []"
  by (simp add: formatMessage_def)




end
